theory Spec2Isabelle
  imports Complex_Main "HOL-Library.AList"
begin

section \<open>Text operations of the Python runtime\<close>

text \<open>
  The program works on \<^verbatim>\<open>str\<close> values: the request it formats and the text it gets from
  \<^verbatim>\<open>data.decode('utf-8', errors='ignore')\<close>. SSDP messages are ASCII header blocks, and
  text is modelled as \<^typ>\<open>string\<close> with the ASCII behaviour of \<^verbatim>\<open>str.splitlines\<close>,
  \<^verbatim>\<open>str.strip\<close> and \<^verbatim>\<open>str.upper\<close>. A character above 127 is carried through
  unchanged (neither a space, nor a line boundary, nor a letter); the Unicode tables that
  Python applies to such characters are outside this development.
\<close>

definition CRLF :: string where
  "CRLF = [CHR 0x0D, CHR 0x0A]"

definition py_isspace :: "char \<Rightarrow> bool" where
  \<comment> \<open>\<^verbatim>\<open>str.isspace\<close> on ASCII: TAB, LF, VT, FF, CR, FS, GS, RS, US and the blank.\<close>
  "py_isspace c =
     (let n = (of_char c :: nat) in (9 \<le> n \<and> n \<le> 13) \<or> (28 \<le> n \<and> n \<le> 32))"

definition is_line_boundary :: "char \<Rightarrow> bool" where
  \<comment> \<open>The ASCII line boundaries of \<^verbatim>\<open>str.splitlines\<close>: LF, VT, FF, CR, FS, GS, RS.\<close>
  "is_line_boundary c =
     (let n = (of_char c :: nat) in (10 \<le> n \<and> n \<le> 13) \<or> (28 \<le> n \<and> n \<le> 30))"

definition upper_char :: "char \<Rightarrow> char" where
  "upper_char c =
     (let n = (of_char c :: nat) in if 97 \<le> n \<and> n \<le> 122 then char_of (n - 32) else c)"

definition upper :: "string \<Rightarrow> string" where
  "upper s = map upper_char s"

definition strip :: "string \<Rightarrow> string" where
  "strip s = rev (dropWhile py_isspace (rev (dropWhile py_isspace s)))"

text \<open>
  \<^verbatim>\<open>str.splitlines()\<close>: the text is cut at every line boundary, CR LF counting as one
  boundary; the boundaries are dropped, and a boundary at the very end opens no further
  (empty) line. The first argument is the line read so far.
\<close>

fun splitlines_from :: "string \<Rightarrow> string \<Rightarrow> string list" where
  "splitlines_from cur [] = (if cur = [] then [] else [cur])"
| "splitlines_from cur (c # cs) =
     (if c = CHR 0x0D \<and> cs \<noteq> [] \<and> hd cs = CHR 0x0A then cur # splitlines_from [] (tl cs)
      else if is_line_boundary c then cur # splitlines_from [] cs
      else splitlines_from (cur @ [c]) cs)"

definition splitlines :: "string \<Rightarrow> string list" where
  "splitlines s = splitlines_from [] s"

text \<open>\<^verbatim>\<open>str(n)\<close> for an integer, as the f-string formats \<^verbatim>\<open>SSDP_PORT\<close> and \<^verbatim>\<open>SSDP_MX\<close>.\<close>

definition digit_char :: "nat \<Rightarrow> char" where
  "digit_char d = char_of (48 + d)"

function str_nat :: "nat \<Rightarrow> string" where
  "str_nat n = (if n < 10 then [digit_char n] else str_nat (n div 10) @ [digit_char (n mod 10)])"
  by pat_completeness auto
termination
  by (relation "measure id") auto

declare str_nat.simps [simp del]

definition str_int :: "int \<Rightarrow> string" where
  "str_int i = (if i < 0 then CHR ''-'' # str_nat (nat (- i)) else str_nat (nat i))"


section \<open>The discovery request\<close>

definition SSDP_ADDR :: string where
  "SSDP_ADDR = ''239.255.255.250''"

definition SSDP_PORT :: int where
  "SSDP_PORT = 1900"

definition SSDP_MX :: int where
  "SSDP_MX = 2"

definition SSDP_ST :: string where
  "SSDP_ST = ''upnp:rootdevice''"

definition ssdp_request :: "string \<Rightarrow> string" where
  \<open>ssdp_request st =
     ''M-SEARCH * HTTP/1.1'' @ CRLF @
     ''HOST: '' @ SSDP_ADDR @ '':'' @ str_int SSDP_PORT @ CRLF @
     ''MAN: "ssdp:discover"'' @ CRLF @
     ''MX: '' @ str_int SSDP_MX @ CRLF @
     ''ST: '' @ st @ CRLF @
     CRLF\<close>


section \<open>Exceptions\<close>

text \<open>
  The exception classes the handlers of the program tell apart. \<^verbatim>\<open>socket.error\<close> is
  \<^verbatim>\<open>OSError\<close>; \<^verbatim>\<open>socket.timeout\<close> is a subclass of it, and so is
  \<^verbatim>\<open>requests.exceptions.RequestException\<close> (it derives from \<^verbatim>\<open>IOError\<close>), the class
  under which requests reports connection failures, timeouts, invalid URLs and the
  \<^verbatim>\<open>HTTPError\<close> of \<^verbatim>\<open>raise_for_status\<close>. \<open>OtherException\<close> stands for any
  \<^verbatim>\<open>Exception\<close> that is not an \<^verbatim>\<open>OSError\<close>.
\<close>

datatype exn = SocketTimeout | SocketError | RequestException | OtherException

fun is_socket_timeout :: "exn \<Rightarrow> bool" where
  "is_socket_timeout SocketTimeout = True"
| "is_socket_timeout _ = False"

fun is_socket_error :: "exn \<Rightarrow> bool" where
  "is_socket_error OtherException = False"
| "is_socket_error _ = True"

fun is_RequestException :: "exn \<Rightarrow> bool" where
  "is_RequestException RequestException = True"
| "is_RequestException _ = False"


section \<open>Sending the request\<close>

text \<open>
  A datagram on the wire is its payload and its destination. The network decides whether
  \<^verbatim>\<open>socket.socket(...)\<close> and the \<open>i\<close>-th \<^verbatim>\<open>sendto\<close> raise.
\<close>

type_synonym datagram = "string \<times> (string \<times> int)"

record net =
  socket_raises :: "exn option"
  sendto_raises :: "nat \<Rightarrow> exn option"

record sock =
  sock_timeout :: real
  sock_closed :: bool

text \<open>
  The loop \<^verbatim>\<open>for i in range(retries): sock.sendto(...)\<close>, over the list of the values of
  \<open>i\<close>; the datagrams sent so far are accumulated, and an exception ends the loop.
\<close>

fun sendto_all :: "(nat \<Rightarrow> exn option) \<Rightarrow> string \<Rightarrow> nat list \<Rightarrow> datagram list
    \<Rightarrow> exn option \<times> datagram list" where
  "sendto_all raises msg [] wire = (None, wire)"
| "sendto_all raises msg (i # is) wire =
     (case raises i of
        Some e \<Rightarrow> (Some e, wire)
      | None \<Rightarrow> sendto_all raises msg is (wire @ [(msg, (SSDP_ADDR, SSDP_PORT))]))"

text \<open>
  \<^verbatim>\<open>send_ssdp_discovery\<close> returns the socket, or \<^verbatim>\<open>None\<close> when anything raised (both
  handlers return \<^verbatim>\<open>None\<close>); the second component is what went out on the wire.
  \<^verbatim>\<open>settimeout\<close> raises \<^verbatim>\<open>ValueError\<close> on a negative timeout.
\<close>

definition send_ssdp_discovery :: "net \<Rightarrow> string \<Rightarrow> int \<Rightarrow> real \<Rightarrow> sock option \<times> datagram list" where
  "send_ssdp_discovery nw st retries tmo =
     (case socket_raises nw of
        Some e \<Rightarrow> (None, [])
      | None \<Rightarrow>
          if tmo < 0 then (None, [])
          else (case sendto_all (sendto_raises nw) (ssdp_request st) [0..<nat retries] [] of
                  (Some e, wire) \<Rightarrow> (None, wire)
                | (None, wire) \<Rightarrow> (Some \<lparr>sock_timeout = tmo, sock_closed = False\<rparr>, wire)))"


section \<open>Receiving the responses\<close>

type_synonym headers = "(string \<times> string) list"

text \<open>
  The dictionary \<^verbatim>\<open>headers\<close> is an association list in insertion order;
  \<^const>\<open>AList.update\<close> is the assignment \<^verbatim>\<open>headers[k] = v\<close> (an existing key keeps its
  place and takes the new value). One step of \<^verbatim>\<open>for line in response_str.splitlines()\<close>:
\<close>

definition split_colon :: "string \<Rightarrow> string \<times> string" where
  \<comment> \<open>\<^verbatim>\<open>line.split(':', 1)\<close> of a line that contains a colon: the text before the first
     colon and the text after it.\<close>
  "split_colon line =
     (takeWhile (\<lambda>c. c \<noteq> CHR '':'') line, tl (dropWhile (\<lambda>c. c \<noteq> CHR '':'') line))"

definition parse_line :: "headers \<Rightarrow> string \<Rightarrow> headers" where
  "parse_line hs line =
     (if CHR '':'' \<in> set line
      then (case split_colon line of
              (key, val) \<Rightarrow> AList.update (upper (strip key)) (strip val) hs)
      else hs)"

definition parse_headers :: "string \<Rightarrow> headers" where
  "parse_headers response_str = foldl parse_line [] (splitlines response_str)"

record response =
  ip_address :: string
  port :: int
  headers :: headers
  device_description :: string
  location :: string

text \<open>
  What the environment does in one iteration of the \<^verbatim>\<open>while\<close> loop: the reading of
  \<^verbatim>\<open>time.time()\<close> in the loop test, the outcome of \<^verbatim>\<open>sock.recvfrom(65507)\<close> (an exception,
  or the decoded text and the sender's address), and the outcome of
  \<^verbatim>\<open>requests.get(location, timeout=5)\<close> should the iteration come to it (an exception, or
  the status code and the text of the response).
\<close>

record step =
  clock :: real
  recvfrom :: "exn + (string \<times> (string \<times> int))"
  http_get :: "exn + (nat \<times> string)"

text \<open>
  The state of a session: the list \<^verbatim>\<open>responses\<close>, and a log of the calls made (how many
  \<^verbatim>\<open>recvfrom\<close>, and the URLs given to \<^verbatim>\<open>requests.get\<close>).
\<close>

record session =
  responses :: "response list"
  recv_calls :: nat
  get_calls :: "string list"

text \<open>
  The inner \<^verbatim>\<open>try\<close>: \<^verbatim>\<open>requests.get\<close>, then \<^verbatim>\<open>raise_for_status()\<close> (an \<^verbatim>\<open>HTTPError\<close>, which
  is a \<^verbatim>\<open>RequestException\<close>, for a status 4xx or 5xx), then \<^verbatim>\<open>.text\<close>; the handler of
  \<^verbatim>\<open>RequestException\<close> gives \<^verbatim>\<open>"Unavailable"\<close>, any other exception leaves the block.
\<close>

definition fetch_description :: "exn + (nat \<times> string) \<Rightarrow> exn + string" where
  "fetch_description r =
     (case r of
        Inl e \<Rightarrow> if is_RequestException e then Inr ''Unavailable'' else Inl e
      | Inr (status, text) \<Rightarrow>
          if 400 \<le> status \<and> status < 600 then Inr ''Unavailable'' else Inr text)"

text \<open>
  The body of the \<^verbatim>\<open>try\<close> inside the loop. It returns the exception that left it, if any,
  and the state it reached.
\<close>

definition loop_body :: "session \<Rightarrow> step \<Rightarrow> exn option \<times> session" where
  "loop_body \<sigma> s =
     (let \<sigma>1 = \<sigma>\<lparr>recv_calls := recv_calls \<sigma> + 1\<rparr> in
      case recvfrom s of
        Inl e \<Rightarrow> (Some e, \<sigma>1)
      | Inr (data, addr) \<Rightarrow>
          (let hs = parse_headers data in
           case map_of hs ''LOCATION'' of
             None \<Rightarrow> (None, \<sigma>1)
           | Some loc \<Rightarrow>
               (let \<sigma>2 = \<sigma>1\<lparr>get_calls := get_calls \<sigma>1 @ [loc]\<rparr> in
                case fetch_description (http_get s) of
                  Inl e \<Rightarrow> (Some e, \<sigma>2)
                | Inr descr \<Rightarrow>
                    (None, \<sigma>2\<lparr>responses := responses \<sigma>2 @
                       [\<lparr>ip_address = fst addr, port = snd addr, headers = hs,
                         device_description = descr, location = loc\<rparr>]\<rparr>))))"

text \<open>
  The \<^verbatim>\<open>while\<close> loop with the two handlers of its \<^verbatim>\<open>try\<close>: \<^verbatim>\<open>socket.timeout\<close> and
  \<^verbatim>\<open>socket.error\<close> both \<^verbatim>\<open>break\<close>, anything else goes on to the outer \<^verbatim>\<open>try\<close>. The
  result is \<open>None\<close> when the list of steps ends before the loop does.
\<close>

fun receive_loop :: "real \<Rightarrow> int \<Rightarrow> session \<Rightarrow> step list \<Rightarrow> (exn option \<times> session) option" where
  "receive_loop start_time max_wait \<sigma> [] = None"
| "receive_loop start_time max_wait \<sigma> (s # rest) =
     (if clock s - start_time < real_of_int max_wait
      then (case loop_body \<sigma> s of
              (None, \<sigma>') \<Rightarrow> receive_loop start_time max_wait \<sigma>' rest
            | (Some e, \<sigma>') \<Rightarrow>
                if is_socket_timeout e then Some (None, \<sigma>')
                else if is_socket_error e then Some (None, \<sigma>')
                else Some (Some e, \<sigma>'))
      else Some (None, \<sigma>))"

text \<open>
  \<^verbatim>\<open>receive_ssdp_responses\<close>: the list returned, the socket after \<^verbatim>\<open>finally: sock.close()\<close>,
  and the final state of the session. The outer handler \<^verbatim>\<open>except Exception\<close> returns
  \<^verbatim>\<open>[]\<close>. The flag \<^verbatim>\<open>verbose\<close> only selects what is logged.
\<close>

definition return_and_close ::
    "sock \<Rightarrow> (exn option \<times> session) option \<Rightarrow> (response list \<times> sock \<times> session) option" where
  \<comment> \<open>What follows the loop: \<^verbatim>\<open>return responses\<close>, or \<^verbatim>\<open>return []\<close> in the handler of
     \<^verbatim>\<open>Exception\<close>; the socket is closed on both ways.\<close>
  "return_and_close sk r =
     (case r of
        None \<Rightarrow> None
      | Some (None, \<sigma>) \<Rightarrow> Some (responses \<sigma>, sk\<lparr>sock_closed := True\<rparr>, \<sigma>)
      | Some (Some e, \<sigma>) \<Rightarrow> Some ([], sk\<lparr>sock_closed := True\<rparr>, \<sigma>))"

definition receive_ssdp_responses ::
    "sock \<Rightarrow> int \<Rightarrow> bool \<Rightarrow> real \<Rightarrow> step list \<Rightarrow> (response list \<times> sock \<times> session) option" where
  "receive_ssdp_responses sk max_wait verbose start_time steps =
     return_and_close sk
       (receive_loop start_time max_wait \<lparr>responses = [], recv_calls = 0, get_calls = []\<rparr> steps)"


section \<open>The command line\<close>

text \<open>
  \<^verbatim>\<open>main\<close> on the parsed arguments (\<^verbatim>\<open>-st\<close>, \<^verbatim>\<open>-mx\<close>, \<^verbatim>\<open>-t\<close>, \<^verbatim>\<open>-r\<close>, \<^verbatim>\<open>-v\<close>): the exit status,
  the datagrams sent and the responses found.
\<close>

record world =
  network :: net
  start_clock :: real
  iterations :: "step list"

definition main :: "world \<Rightarrow> string \<Rightarrow> int \<Rightarrow> real \<Rightarrow> int \<Rightarrow> bool
    \<Rightarrow> (int \<times> datagram list \<times> response list) option" where
  "main w search_target max_wait tmo retries verbose =
     (if max_wait \<le> 0 then Some (1, [], [])
      else if tmo \<le> 0 then Some (1, [], [])
      else if retries \<le> 0 then Some (1, [], [])
      else (case send_ssdp_discovery (network w) search_target retries tmo of
              (None, wire) \<Rightarrow> Some (1, wire, [])
            | (Some sk, wire) \<Rightarrow>
                (case receive_ssdp_responses sk max_wait verbose (start_clock w) (iterations w) of
                   None \<Rightarrow> None
                 | Some (found, sk', \<sigma>) \<Rightarrow> Some (0, wire, found))))"


section \<open>Environments used in the examples\<close>

definition network_up :: net where
  "network_up = \<lparr>socket_raises = None, sendto_raises = (\<lambda>i. None)\<rparr>"


definition device_reply :: string where
  "device_reply = ''HTTP/1.1 200 OK'' @ CRLF @ ''Location: http://10.0.0.5/d.xml'' @ CRLF @ CRLF"

definition notify_no_location :: string where
  "notify_no_location = ''HTTP/1.1 200 OK'' @ CRLF @ ''ST: upnp:rootdevice'' @ CRLF @ CRLF"

definition new_session :: session where
  "new_session = \<lparr>responses = [], recv_calls = 0, get_calls = []\<rparr>"

definition open_sock :: sock where
  "open_sock = \<lparr>sock_timeout = 5, sock_closed = False\<rparr>"

definition reply_not_found :: step where
  "reply_not_found = \<lparr>clock = 1/2, recvfrom = Inr (device_reply, (''10.0.0.5'', 1900)),
      http_get = Inr (404, ''Not Found'')\<rparr>"

definition reply_ok :: step where
  "reply_ok = \<lparr>clock = 1/2, recvfrom = Inr (device_reply, (''10.0.0.5'', 1900)),
      http_get = Inr (200, ''<root/>'')\<rparr>"

definition reply_no_location :: step where
  "reply_no_location = \<lparr>clock = 1/2, recvfrom = Inr (notify_no_location, (''10.0.0.7'', 1900)),
      http_get = Inr (200, ''<root/>'')\<rparr>"

definition reply_fetch_unexpected :: step where
  \<comment> \<open>\<^verbatim>\<open>requests.get\<close> raises an exception that is not an \<^verbatim>\<open>OSError\<close>.\<close>
  "reply_fetch_unexpected = \<lparr>clock = 3/4, recvfrom = Inr (device_reply, (''10.0.0.6'', 1900)),
      http_get = Inl OtherException\<rparr>"

definition reply_fetch_oserror :: step where
  \<comment> \<open>\<^verbatim>\<open>requests.get\<close> raises an \<^verbatim>\<open>OSError\<close> that is not a \<^verbatim>\<open>RequestException\<close>.\<close>
  "reply_fetch_oserror = \<lparr>clock = 3/4, recvfrom = Inr (device_reply, (''10.0.0.6'', 1900)),
      http_get = Inl SocketError\<rparr>"

definition reply_multiple_choices :: step where
  \<comment> \<open>The descriptor URL answers 300 Multiple Choices, which \<^verbatim>\<open>raise_for_status\<close> lets pass.\<close>
  "reply_multiple_choices = \<lparr>clock = 3/4, recvfrom = Inr (device_reply, (''10.0.0.6'', 1900)),
      http_get = Inr (300, ''<choices/>'')\<rparr>"

definition recv_times_out :: step where
  "recv_times_out = \<lparr>clock = 1, recvfrom = Inl SocketTimeout, http_get = Inl OtherException\<rparr>"

definition recv_socket_error :: step where
  "recv_socket_error = \<lparr>clock = 1, recvfrom = Inl SocketError, http_get = Inl OtherException\<rparr>"

definition recv_unexpected :: step where
  "recv_unexpected = \<lparr>clock = 1, recvfrom = Inl OtherException, http_get = Inl OtherException\<rparr>"


definition quiet_world :: world where
  "quiet_world = \<lparr>network = network_up, start_clock = 0, iterations = [recv_times_out]\<rparr>"

definition reply_two_st :: string where
  "reply_two_st = ''st: a'' @ CRLF @ ''Usn: u'' @ CRLF @ ''ST : b:c'' @ CRLF"


section \<open>The request on the wire\<close>

lemma str_int_SSDP_PORT: "str_int SSDP_PORT = ''1900''"
  by (simp add: str_int_def SSDP_PORT_def str_nat.simps digit_char_def char_of_eq_iff)

lemma str_int_SSDP_MX: "str_int SSDP_MX = ''2''"
  by (simp add: str_int_def SSDP_MX_def str_nat.simps digit_char_def char_of_eq_iff)

lemma ssdp_request_text:
  \<open>ssdp_request st =
     ''M-SEARCH * HTTP/1.1'' @ CRLF @ ''HOST: 239.255.255.250:1900'' @ CRLF @
     ''MAN: "ssdp:discover"'' @ CRLF @ ''MX: 2'' @ CRLF @ ''ST: '' @ st @ CRLF @ CRLF\<close>
  by (simp add: ssdp_request_def str_int_SSDP_PORT str_int_SSDP_MX SSDP_ADDR_def)

lemma sendto_all_wire:
  "sendto_all raises msg js wire = (r, wire') \<Longrightarrow>
     \<exists>n\<le>length js. wire' = wire @ replicate n (msg, (SSDP_ADDR, SSDP_PORT)) \<and>
       (r = None \<longrightarrow> n = length js)"
proof (induction js arbitrary: wire)
  case Nil
  then show ?case by simp
next
  case (Cons j js)
  show ?case
  proof (cases "raises j")
    case None
    with Cons.prems
    have "sendto_all raises msg js (wire @ [(msg, (SSDP_ADDR, SSDP_PORT))]) = (r, wire')"
      by simp
    from Cons.IH [OF this] obtain n where n: "n \<le> length js"
      "wire' = (wire @ [(msg, (SSDP_ADDR, SSDP_PORT))]) @ replicate n (msg, (SSDP_ADDR, SSDP_PORT))"
      "r = None \<longrightarrow> n = length js" by blast
    then have "Suc n \<le> length (j # js) \<and>
        wire' = wire @ replicate (Suc n) (msg, (SSDP_ADDR, SSDP_PORT)) \<and>
        (r = None \<longrightarrow> Suc n = length (j # js))" by simp
    then show ?thesis by blast
  next
    case (Some e)
    with Cons.prems have "r = Some e" "wire' = wire" by simp_all
    then show ?thesis by (intro exI [of _ 0]) simp
  qed
qed

lemma send_ssdp_discovery_wire:
  assumes "send_ssdp_discovery nw st retries tmo = (r, wire)"
  shows "(\<exists>n\<le>nat retries. wire = replicate n (ssdp_request st, (SSDP_ADDR, SSDP_PORT))) \<and>
         (r \<noteq> None \<longrightarrow> wire = replicate (nat retries) (ssdp_request st, (SSDP_ADDR, SSDP_PORT)))"
proof (cases "socket_raises nw = None \<and> \<not> tmo < 0")
  case False
  with assms have "wire = []" "r = None"
    by (auto simp: send_ssdp_discovery_def split: option.splits if_splits)
  then show ?thesis by simp
next
  case True
  obtain r' wire' where
    s: "sendto_all (sendto_raises nw) (ssdp_request st) [0..<nat retries] [] = (r', wire')"
    by (cases "sendto_all (sendto_raises nw) (ssdp_request st) [0..<nat retries] []")
  with True assms have w: "wire = wire'" and r: "r \<noteq> None \<longrightarrow> r' = None"
    by (auto simp: send_ssdp_discovery_def split: option.splits)
  from sendto_all_wire [OF s] w r show ?thesis by auto
qed





section \<open>The receive loop, step by step\<close>

lemma receive_loop_expired:
  "\<not> clock s - start_time < real_of_int max_wait \<Longrightarrow>
     receive_loop start_time max_wait \<sigma> (s # rest) = Some (None, \<sigma>)"
  by simp

lemma receive_loop_continue:
  "clock s - start_time < real_of_int max_wait \<Longrightarrow> loop_body \<sigma> s = (None, \<sigma>') \<Longrightarrow>
     receive_loop start_time max_wait \<sigma> (s # rest) = receive_loop start_time max_wait \<sigma>' rest"
  by simp

lemma receive_loop_raise:
  "clock s - start_time < real_of_int max_wait \<Longrightarrow> loop_body \<sigma> s = (Some e, \<sigma>') \<Longrightarrow>
     receive_loop start_time max_wait \<sigma> (s # rest) =
       Some (if is_socket_error e then None else Some e, \<sigma>')"
  by (cases e) simp_all

lemma loop_body_recv_raises:
  "recvfrom s = Inl e \<Longrightarrow> loop_body \<sigma> s = (Some e, \<sigma>\<lparr>recv_calls := recv_calls \<sigma> + 1\<rparr>)"
  by (simp add: loop_body_def)

lemma loop_body_no_location:
  "recvfrom s = Inr (data, addr) \<Longrightarrow> map_of (parse_headers data) ''LOCATION'' = None \<Longrightarrow>
     loop_body \<sigma> s = (None, \<sigma>\<lparr>recv_calls := recv_calls \<sigma> + 1\<rparr>)"
  by (simp add: loop_body_def)

lemma loop_body_location:
  "recvfrom s = Inr (data, addr) \<Longrightarrow> map_of (parse_headers data) ''LOCATION'' = Some loc \<Longrightarrow>
     loop_body \<sigma> s =
       (case fetch_description (http_get s) of
          Inl e \<Rightarrow> (Some e, \<sigma>\<lparr>recv_calls := recv_calls \<sigma> + 1, get_calls := get_calls \<sigma> @ [loc]\<rparr>)
        | Inr descr \<Rightarrow>
            (None, \<sigma>\<lparr>recv_calls := recv_calls \<sigma> + 1, get_calls := get_calls \<sigma> @ [loc],
                      responses := responses \<sigma> @
                        [\<lparr>ip_address = fst addr, port = snd addr, headers = parse_headers data,
                          device_description = descr, location = loc\<rparr>]\<rparr>))"
  by (simp add: loop_body_def Let_def split: sum.splits)

lemma fetch_description_failed:
  "r = Inl RequestException \<or> (\<exists>status text. r = Inr (status, text) \<and> 400 \<le> status \<and> status < 600)
     \<Longrightarrow> fetch_description r = Inr ''Unavailable''"
  by (auto simp: fetch_description_def)

lemma loop_body_responses_grow:
  "loop_body \<sigma> s = (r, \<sigma>') \<Longrightarrow> \<exists>new. responses \<sigma>' = responses \<sigma> @ new"
  by (auto simp: loop_body_def Let_def split: sum.splits option.splits prod.splits)

lemma receive_loop_responses_grow:
  "receive_loop start_time max_wait \<sigma> steps = Some (r, \<sigma>') \<Longrightarrow>
     \<exists>new. responses \<sigma>' = responses \<sigma> @ new"
proof (induction steps arbitrary: \<sigma>)
  case Nil
  then show ?case by simp
next
  case (Cons s steps)
  show ?case
  proof (cases "clock s - start_time < real_of_int max_wait")
    case False
    with Cons.prems show ?thesis by simp
  next
    case True
    obtain x \<sigma>1 where b: "loop_body \<sigma> s = (x, \<sigma>1)" by (cases "loop_body \<sigma> s")
    from loop_body_responses_grow [OF b] obtain n1 where n1: "responses \<sigma>1 = responses \<sigma> @ n1" ..
    show ?thesis
    proof (cases x)
      case None
      with True b Cons.prems have "receive_loop start_time max_wait \<sigma>1 steps = Some (r, \<sigma>')"
        by simp
      from Cons.IH [OF this] n1 show ?thesis by auto
    next
      case (Some e)
      with True b Cons.prems have "\<sigma>' = \<sigma>1" by (simp split: if_splits)
      with n1 show ?thesis by blast
    qed
  qed
qed


lemma receive_loop_returns:
  "\<exists>s\<in>set steps. \<not> clock s - start_time < real_of_int max_wait \<or> (\<exists>e. recvfrom s = Inl e) \<Longrightarrow>
     receive_loop start_time max_wait \<sigma> steps \<noteq> None"
proof (induction steps arbitrary: \<sigma>)
  case Nil
  then show ?case by simp
next
  case (Cons s steps)
  show ?case
  proof (cases "clock s - start_time < real_of_int max_wait")
    case False
    then show ?thesis by simp
  next
    case True
    obtain x \<sigma>1 where b: "loop_body \<sigma> s = (x, \<sigma>1)" by (cases "loop_body \<sigma> s")
    show ?thesis
    proof (cases x)
      case (Some e)
      with True b show ?thesis by (simp add: receive_loop_raise)
    next
      case None
      with b have "\<not> (\<exists>e. recvfrom s = Inl e)" by (auto simp: loop_body_recv_raises)
      with True Cons.prems
      have "\<exists>s\<in>set steps. \<not> clock s - start_time < real_of_int max_wait \<or> (\<exists>e. recvfrom s = Inl e)"
        by auto
      from Cons.IH [OF this] True b None show ?thesis by simp
    qed
  qed
qed

lemmas text_eval = parse_headers_def splitlines_def parse_line_def split_colon_def CRLF_def
  is_line_boundary_def upper_def strip_def py_isspace_def upper_char_def char_of_eq_iff

lemma parse_device_reply: "parse_headers device_reply = [(''LOCATION'', ''http://10.0.0.5/d.xml'')]"
  by (simp add: device_reply_def text_eval)

lemma parse_notify_no_location: "parse_headers notify_no_location = [(''ST'', ''upnp:rootdevice'')]"
  by (simp add: notify_no_location_def text_eval)


section \<open>Descriptor fetch failures\<close>

text \<open>
  C2, as amended. The failures of the descriptor fetch that the program handles are those
  of its inner handler: \<^verbatim>\<open>requests.get\<close> raises a \<^verbatim>\<open>RequestException\<close>, or the status is
  4xx or 5xx so that \<^verbatim>\<open>raise_for_status\<close> does. In an iteration that receives a datagram
  whose parsed headers have the key LOCATION, such a failure does not end the session: the
  loop goes on with the remaining iterations, from a state in which the record of the
  datagram, with the description \<^verbatim>\<open>"Unavailable"\<close>, has been appended to \<^verbatim>\<open>responses\<close>. The
  record is in the list the function returns whenever the loop ends by its test or by a
  \<^verbatim>\<open>break\<close>.
\<close>

theorem fetch_failure_keeps_record:
  assumes "clock s - start_time < real_of_int max_wait"
    and "recvfrom s = Inr (data, addr)"
    and "map_of (parse_headers data) ''LOCATION'' = Some loc"
    and "http_get s = Inl RequestException \<or>
         (\<exists>status text. http_get s = Inr (status, text) \<and> 400 \<le> status \<and> status < 600)"
  shows "receive_loop start_time max_wait \<sigma> (s # rest) =
         receive_loop start_time max_wait
           (\<sigma>\<lparr>recv_calls := recv_calls \<sigma> + 1, get_calls := get_calls \<sigma> @ [loc],
              responses := responses \<sigma> @
                [\<lparr>ip_address = fst addr, port = snd addr, headers = parse_headers data,
                  device_description = ''Unavailable'', location = loc\<rparr>]\<rparr>) rest \<and>
         (\<forall>\<sigma>'. receive_loop start_time max_wait \<sigma> (s # rest) = Some (None, \<sigma>') \<longrightarrow>
            return_and_close sk (receive_loop start_time max_wait \<sigma> (s # rest)) =
              Some (responses \<sigma>', sk\<lparr>sock_closed := True\<rparr>, \<sigma>') \<and>
            \<lparr>ip_address = fst addr, port = snd addr, headers = parse_headers data,
              device_description = ''Unavailable'', location = loc\<rparr> \<in> set (responses \<sigma>'))"
proof -
  let ?rec = "\<lparr>ip_address = fst addr, port = snd addr, headers = parse_headers data,
                device_description = ''Unavailable'', location = loc\<rparr>"
  let ?\<sigma>1 = "\<sigma>\<lparr>recv_calls := recv_calls \<sigma> + 1, get_calls := get_calls \<sigma> @ [loc],
                 responses := responses \<sigma> @ [?rec]\<rparr>"
  have b: "loop_body \<sigma> s = (None, ?\<sigma>1)"
    using assms(2,3) fetch_description_failed [OF assms(4)] by (simp add: loop_body_location)
  have step: "receive_loop start_time max_wait \<sigma> (s # rest) = receive_loop start_time max_wait ?\<sigma>1 rest"
    by (rule receive_loop_continue [OF assms(1) b])
  have "?rec \<in> set (responses \<sigma>')" and
       "return_and_close sk (receive_loop start_time max_wait \<sigma> (s # rest)) =
              Some (responses \<sigma>', sk\<lparr>sock_closed := True\<rparr>, \<sigma>')"
    if fin: "receive_loop start_time max_wait \<sigma> (s # rest) = Some (None, \<sigma>')" for \<sigma>'
  proof -
    from fin step have "receive_loop start_time max_wait ?\<sigma>1 rest = Some (None, \<sigma>')" by simp
    from receive_loop_responses_grow [OF this] show "?rec \<in> set (responses \<sigma>')" by auto
    from fin show "return_and_close sk (receive_loop start_time max_wait \<sigma> (s # rest)) =
              Some (responses \<sigma>', sk\<lparr>sock_closed := True\<rparr>, \<sigma>')"
      by (simp only: return_and_close_def option.case prod.case)
  qed
  with step show ?thesis by blast
qed

text \<open>
  C2, witness: a reply with a LOCATION header whose descriptor fetch answers 404, then a
  receive timeout. The record is returned, with the description \<^verbatim>\<open>"Unavailable"\<close>.
\<close>

theorem fetch_failure_keeps_record_witness:
  "receive_ssdp_responses open_sock 2 False 0 [reply_not_found, recv_times_out] =
     Some ([\<lparr>ip_address = ''10.0.0.5'', port = 1900,
              headers = [(''LOCATION'', ''http://10.0.0.5/d.xml'')],
              device_description = ''Unavailable'', location = ''http://10.0.0.5/d.xml''\<rparr>],
           \<lparr>sock_timeout = 5, sock_closed = True\<rparr>,
           \<lparr>responses = [\<lparr>ip_address = ''10.0.0.5'', port = 1900,
              headers = [(''LOCATION'', ''http://10.0.0.5/d.xml'')],
              device_description = ''Unavailable'', location = ''http://10.0.0.5/d.xml''\<rparr>],
            recv_calls = 2, get_calls = [''http://10.0.0.5/d.xml'']\<rparr>)"
proof -
  have 1: "clock reply_not_found - 0 < real_of_int 2" by (simp add: reply_not_found_def)
  have 2: "recvfrom reply_not_found = Inr (device_reply, (''10.0.0.5'', 1900))"
    by (simp add: reply_not_found_def)
  have 3: "map_of (parse_headers device_reply) ''LOCATION'' = Some ''http://10.0.0.5/d.xml''"
    by (simp add: parse_device_reply)
  have 4: "http_get reply_not_found = Inl RequestException \<or>
         (\<exists>status text. http_get reply_not_found = Inr (status, text) \<and> 400 \<le> status \<and> status < 600)"
    by (simp add: reply_not_found_def)
  from fetch_failure_keeps_record [OF 1 2 3 4, of new_session "[recv_times_out]" open_sock]
  show ?thesis
    by (simp add: receive_ssdp_responses_def return_and_close_def new_session_def open_sock_def
        recv_times_out_def loop_body_def parse_device_reply)
qed

text \<open>
  C2, counterexample: the claim as written, for any transport error and any non-success
  status, fails on three sessions over replies that all carry a LOCATION header.

  \<^item> A first descriptor is fetched, then \<^verbatim>\<open>requests.get\<close> raises an exception that is not an
    \<^verbatim>\<open>OSError\<close>: it passes the inner handler and the two handlers of the loop,
    \<^verbatim>\<open>except Exception\<close> returns the empty list, and the record already collected is
    lost with the one of this datagram.
  \<^item> A first descriptor is fetched, then \<^verbatim>\<open>requests.get\<close> raises an \<^verbatim>\<open>OSError\<close> that is not
    a \<^verbatim>\<open>RequestException\<close>: the handler of \<^verbatim>\<open>socket.error\<close> breaks the loop, the record
    of this datagram is not appended and the reply that would follow is never read.
  \<^item> The descriptor URL answers with the status 300: \<^verbatim>\<open>raise_for_status\<close> does not raise
    and the record carries the body of the response, not \<^verbatim>\<open>"Unavailable"\<close>.
\<close>

theorem fetch_failure_outside_handler_counterexample:
  "receive_ssdp_responses open_sock 2 False 0 [reply_ok, reply_fetch_unexpected, recv_times_out] =
     Some ([], \<lparr>sock_timeout = 5, sock_closed = True\<rparr>,
           \<lparr>responses = [\<lparr>ip_address = ''10.0.0.5'', port = 1900,
              headers = [(''LOCATION'', ''http://10.0.0.5/d.xml'')],
              device_description = ''<root/>'', location = ''http://10.0.0.5/d.xml''\<rparr>],
            recv_calls = 2, get_calls = [''http://10.0.0.5/d.xml'', ''http://10.0.0.5/d.xml'']\<rparr>) \<and>
   receive_ssdp_responses open_sock 2 False 0 [reply_ok, reply_fetch_oserror, reply_ok] =
     Some ([\<lparr>ip_address = ''10.0.0.5'', port = 1900,
              headers = [(''LOCATION'', ''http://10.0.0.5/d.xml'')],
              device_description = ''<root/>'', location = ''http://10.0.0.5/d.xml''\<rparr>],
           \<lparr>sock_timeout = 5, sock_closed = True\<rparr>,
           \<lparr>responses = [\<lparr>ip_address = ''10.0.0.5'', port = 1900,
              headers = [(''LOCATION'', ''http://10.0.0.5/d.xml'')],
              device_description = ''<root/>'', location = ''http://10.0.0.5/d.xml''\<rparr>],
            recv_calls = 2, get_calls = [''http://10.0.0.5/d.xml'', ''http://10.0.0.5/d.xml'']\<rparr>) \<and>
   receive_ssdp_responses open_sock 2 False 0 [reply_multiple_choices, recv_times_out] =
     Some ([\<lparr>ip_address = ''10.0.0.6'', port = 1900,
              headers = [(''LOCATION'', ''http://10.0.0.5/d.xml'')],
              device_description = ''<choices/>'', location = ''http://10.0.0.5/d.xml''\<rparr>],
           \<lparr>sock_timeout = 5, sock_closed = True\<rparr>,
           \<lparr>responses = [\<lparr>ip_address = ''10.0.0.6'', port = 1900,
              headers = [(''LOCATION'', ''http://10.0.0.5/d.xml'')],
              device_description = ''<choices/>'', location = ''http://10.0.0.5/d.xml''\<rparr>],
            recv_calls = 2, get_calls = [''http://10.0.0.5/d.xml'']\<rparr>)"
  by (simp add: receive_ssdp_responses_def return_and_close_def open_sock_def reply_ok_def
      reply_fetch_unexpected_def reply_fetch_oserror_def reply_multiple_choices_def
      recv_times_out_def loop_body_def fetch_description_def parse_device_reply)


section \<open>Errors of the socket while receiving\<close>

text \<open>
  C3. When \<^verbatim>\<open>recvfrom\<close> raises in an iteration, the function returns and closes the socket,
  whatever the exception; when the exception is a \<^verbatim>\<open>socket.error\<close>, it returns exactly the
  records collected before that iteration, and the iterations that would follow do not
  take place.
\<close>

theorem socket_error_returns_partial:
  assumes "clock s - start_time < real_of_int max_wait"
    and "recvfrom s = Inl e"
  shows "(is_socket_error e \<longrightarrow>
            return_and_close sk (receive_loop start_time max_wait \<sigma> (s # rest)) =
              Some (responses \<sigma>, sk\<lparr>sock_closed := True\<rparr>, \<sigma>\<lparr>recv_calls := recv_calls \<sigma> + 1\<rparr>)) \<and>
         (\<exists>found. return_and_close sk (receive_loop start_time max_wait \<sigma> (s # rest)) =
              Some (found, sk\<lparr>sock_closed := True\<rparr>, \<sigma>\<lparr>recv_calls := recv_calls \<sigma> + 1\<rparr>))"
proof -
  have "receive_loop start_time max_wait \<sigma> (s # rest) =
      Some (if is_socket_error e then None else Some e, \<sigma>\<lparr>recv_calls := recv_calls \<sigma> + 1\<rparr>)"
    by (rule receive_loop_raise [OF assms(1) loop_body_recv_raises [OF assms(2)]])
  then show ?thesis by (simp add: return_and_close_def)
qed

text \<open>
  C3, witness: one reply collected, then \<^verbatim>\<open>recvfrom\<close> raises \<^verbatim>\<open>socket.error\<close>; the record
  collected is returned, the reply that would follow is never received.
\<close>

theorem socket_error_returns_partial_witness:
  "receive_ssdp_responses open_sock 2 False 0 [reply_ok, recv_socket_error, reply_ok] =
     Some ([\<lparr>ip_address = ''10.0.0.5'', port = 1900,
              headers = [(''LOCATION'', ''http://10.0.0.5/d.xml'')],
              device_description = ''<root/>'', location = ''http://10.0.0.5/d.xml''\<rparr>],
           \<lparr>sock_timeout = 5, sock_closed = True\<rparr>,
           \<lparr>responses = [\<lparr>ip_address = ''10.0.0.5'', port = 1900,
              headers = [(''LOCATION'', ''http://10.0.0.5/d.xml'')],
              device_description = ''<root/>'', location = ''http://10.0.0.5/d.xml''\<rparr>],
            recv_calls = 2, get_calls = [''http://10.0.0.5/d.xml'']\<rparr>)"
proof -
  let ?\<sigma> = "\<lparr>responses = [\<lparr>ip_address = ''10.0.0.5'', port = 1900,
              headers = [(''LOCATION'', ''http://10.0.0.5/d.xml'')],
              device_description = ''<root/>'', location = ''http://10.0.0.5/d.xml''\<rparr>],
            recv_calls = 1, get_calls = [''http://10.0.0.5/d.xml'']\<rparr>"
  have 1: "clock recv_socket_error - 0 < real_of_int 2" by (simp add: recv_socket_error_def)
  have 2: "recvfrom recv_socket_error = Inl SocketError" by (simp add: recv_socket_error_def)
  have first: "receive_loop 0 2 new_session (reply_ok # recv_socket_error # [reply_ok]) =
      receive_loop 0 2 ?\<sigma> (recv_socket_error # [reply_ok])"
    by (simp add: new_session_def reply_ok_def loop_body_def parse_device_reply fetch_description_def)
  from socket_error_returns_partial [OF 1 2, of open_sock ?\<sigma> "[reply_ok]"] first
  show ?thesis
    by (simp add: receive_ssdp_responses_def return_and_close_def new_session_def open_sock_def
        del: receive_loop.simps)
qed

text \<open>
  C8. When \<^verbatim>\<open>recvfrom\<close> raises \<^verbatim>\<open>socket.timeout\<close> in an iteration that the loop test let
  in (the deadline has not passed), the loop ends there: the call that timed out is the
  last \<^verbatim>\<open>recvfrom\<close> of the session, whatever the iterations that would follow, and the
  records collected so far are returned.
\<close>

theorem timeout_ends_loop:
  assumes "clock s - start_time < real_of_int max_wait"
    and "recvfrom s = Inl e"
    and "is_socket_timeout e"
  shows "receive_loop start_time max_wait \<sigma> (s # rest) =
           Some (None, \<sigma>\<lparr>recv_calls := recv_calls \<sigma> + 1\<rparr>) \<and>
         return_and_close sk (receive_loop start_time max_wait \<sigma> (s # rest)) =
           Some (responses \<sigma>, sk\<lparr>sock_closed := True\<rparr>, \<sigma>\<lparr>recv_calls := recv_calls \<sigma> + 1\<rparr>)"
proof -
  from assms(3) have "is_socket_error e" by (cases e) simp_all
  with receive_loop_raise [OF assms(1) loop_body_recv_raises [OF assms(2)], of \<sigma> rest]
  show ?thesis by (simp add: return_and_close_def)
qed

text \<open>
  C8, witness: the first receive times out at time 1 of a window of 2; two replies would
  follow, and exactly one \<^verbatim>\<open>recvfrom\<close> is made.
\<close>

theorem timeout_ends_loop_witness:
  "receive_ssdp_responses open_sock 2 False 0 [recv_times_out, reply_ok, reply_ok] =
     Some ([], \<lparr>sock_timeout = 5, sock_closed = True\<rparr>,
           \<lparr>responses = [], recv_calls = 1, get_calls = []\<rparr>)"
proof -
  have 1: "clock recv_times_out - 0 < real_of_int 2" by (simp add: recv_times_out_def)
  have 2: "recvfrom recv_times_out = Inl SocketTimeout" by (simp add: recv_times_out_def)
  have 3: "is_socket_timeout SocketTimeout" by simp
  from timeout_ends_loop [OF 1 2 3, of new_session "[reply_ok, reply_ok]" open_sock]
  show ?thesis
    by (simp add: receive_ssdp_responses_def return_and_close_def new_session_def open_sock_def
        del: receive_loop.simps)
qed

text \<open>
  C9. When the body of the loop raises an exception that is neither a \<^verbatim>\<open>socket.timeout\<close>
  nor a \<^verbatim>\<open>socket.error\<close>, the function returns the empty list, whatever records
  \<^verbatim>\<open>responses\<close> holds at that point, and the socket is closed.
\<close>

theorem unexpected_exception_discards_records:
  assumes "clock s - start_time < real_of_int max_wait"
    and "loop_body \<sigma> s = (Some e, \<sigma>')"
    and "\<not> is_socket_timeout e" and "\<not> is_socket_error e"
  shows "return_and_close sk (receive_loop start_time max_wait \<sigma> (s # rest)) =
           Some ([], sk\<lparr>sock_closed := True\<rparr>, \<sigma>')"
  using receive_loop_raise [OF assms(1,2), of rest] assms(4)
  by (simp add: return_and_close_def)

text \<open>
  C9, witness: one record collected, then an unexpected exception: the list returned is
  empty although \<^verbatim>\<open>responses\<close> holds the record.
\<close>

theorem unexpected_exception_discards_records_witness:
  "receive_ssdp_responses open_sock 2 False 0 [reply_ok, recv_unexpected] =
     Some ([], \<lparr>sock_timeout = 5, sock_closed = True\<rparr>,
           \<lparr>responses = [\<lparr>ip_address = ''10.0.0.5'', port = 1900,
              headers = [(''LOCATION'', ''http://10.0.0.5/d.xml'')],
              device_description = ''<root/>'', location = ''http://10.0.0.5/d.xml''\<rparr>],
            recv_calls = 2, get_calls = [''http://10.0.0.5/d.xml'']\<rparr>)"
proof -
  let ?\<sigma> = "\<lparr>responses = [\<lparr>ip_address = ''10.0.0.5'', port = 1900,
              headers = [(''LOCATION'', ''http://10.0.0.5/d.xml'')],
              device_description = ''<root/>'', location = ''http://10.0.0.5/d.xml''\<rparr>],
            recv_calls = 1, get_calls = [''http://10.0.0.5/d.xml'']\<rparr>"
  have 1: "clock recv_unexpected - 0 < real_of_int 2" by (simp add: recv_unexpected_def)
  have 2: "loop_body ?\<sigma> recv_unexpected = (Some OtherException, ?\<sigma>\<lparr>recv_calls := 2\<rparr>)"
    by (simp add: recv_unexpected_def loop_body_def)
  have 3: "\<not> is_socket_timeout OtherException" "\<not> is_socket_error OtherException" by simp_all
  have first: "receive_loop 0 2 new_session (reply_ok # [recv_unexpected]) =
      receive_loop 0 2 ?\<sigma> [recv_unexpected]"
    by (simp add: new_session_def reply_ok_def loop_body_def parse_device_reply fetch_description_def)
  from unexpected_exception_discards_records [OF 1 2 3, of open_sock "[]"] first
  show ?thesis
    by (simp add: receive_ssdp_responses_def return_and_close_def new_session_def open_sock_def
        del: receive_loop.simps)
qed


section \<open>Datagrams without a LOCATION header\<close>

lemma receive_loop_no_location:
  assumes "\<forall>s\<in>set steps. \<forall>data addr. recvfrom s = Inr (data, addr) \<longrightarrow>
             map_of (parse_headers data) ''LOCATION'' = None"
    and "receive_loop start_time max_wait \<sigma> steps = Some (x, \<sigma>')"
  shows "responses \<sigma>' = responses \<sigma> \<and> get_calls \<sigma>' = get_calls \<sigma>"
  using assms
proof (induction steps arbitrary: \<sigma>)
  case Nil
  then show ?case by simp
next
  case (Cons s steps)
  show ?case
  proof (cases "clock s - start_time < real_of_int max_wait")
    case False
    with Cons.prems(2) show ?thesis by simp
  next
    case True
    let ?\<sigma>1 = "\<sigma>\<lparr>recv_calls := recv_calls \<sigma> + 1\<rparr>"
    show ?thesis
    proof (cases "recvfrom s")
      case (Inl e)
      from receive_loop_raise [OF True loop_body_recv_raises [OF Inl], of \<sigma> steps] Cons.prems(2)
      have "\<sigma>' = ?\<sigma>1" by simp
      then show ?thesis by simp
    next
      case (Inr d)
      obtain data addr where d: "d = (data, addr)" by (cases d)
      with Inr Cons.prems(1) have "map_of (parse_headers data) ''LOCATION'' = None" by simp
      with Inr d have "loop_body \<sigma> s = (None, ?\<sigma>1)" by (simp add: loop_body_no_location)
      from receive_loop_continue [OF True this, of steps] Cons.prems(2)
      have "receive_loop start_time max_wait ?\<sigma>1 steps = Some (x, \<sigma>')" by simp
      moreover from Cons.prems(1)
      have "\<forall>s\<in>set steps. \<forall>data addr. recvfrom s = Inr (data, addr) \<longrightarrow>
             map_of (parse_headers data) ''LOCATION'' = None" by simp
      ultimately have "responses \<sigma>' = responses ?\<sigma>1 \<and> get_calls \<sigma>' = get_calls ?\<sigma>1"
        by (rule Cons.IH [rotated])
      then show ?thesis by simp
    qed
  qed
qed

text \<open>
  C7. An iteration that receives a datagram whose parsed headers have no key LOCATION
  adds no record (and fetches nothing): the loop goes on from the same \<^verbatim>\<open>responses\<close>. When
  no datagram of a session has the key, and the session comes to its end (the deadline
  passes, or a \<^verbatim>\<open>recvfrom\<close> raises), the function returns the empty list.
\<close>

theorem no_location_no_record:
  "(clock s - start_time < real_of_int max_wait \<and> recvfrom s = Inr (data, addr) \<and>
    map_of (parse_headers data) ''LOCATION'' = None \<longrightarrow>
      receive_loop start_time max_wait \<sigma> (s # rest) =
      receive_loop start_time max_wait (\<sigma>\<lparr>recv_calls := recv_calls \<sigma> + 1\<rparr>) rest) \<and>
   ((\<forall>s\<in>set steps. \<forall>data addr. recvfrom s = Inr (data, addr) \<longrightarrow>
        map_of (parse_headers data) ''LOCATION'' = None) \<and>
    (\<exists>s\<in>set steps. \<not> clock s - start_time < real_of_int max_wait \<or> (\<exists>e. recvfrom s = Inl e)) \<longrightarrow>
      (\<exists>\<sigma>'. receive_ssdp_responses sk max_wait verbose start_time steps =
              Some ([], sk\<lparr>sock_closed := True\<rparr>, \<sigma>') \<and>
            responses \<sigma>' = [] \<and> get_calls \<sigma>' = []))"
proof (intro conjI impI)
  assume "clock s - start_time < real_of_int max_wait \<and> recvfrom s = Inr (data, addr) \<and>
    map_of (parse_headers data) ''LOCATION'' = None"
  then show "receive_loop start_time max_wait \<sigma> (s # rest) =
      receive_loop start_time max_wait (\<sigma>\<lparr>recv_calls := recv_calls \<sigma> + 1\<rparr>) rest"
    by (simp add: loop_body_no_location)
next
  let ?\<sigma>0 = "\<lparr>responses = [], recv_calls = 0, get_calls = []\<rparr>"
  assume a: "(\<forall>s\<in>set steps. \<forall>data addr. recvfrom s = Inr (data, addr) \<longrightarrow>
        map_of (parse_headers data) ''LOCATION'' = None) \<and>
    (\<exists>s\<in>set steps. \<not> clock s - start_time < real_of_int max_wait \<or> (\<exists>e. recvfrom s = Inl e))"
  then have "receive_loop start_time max_wait ?\<sigma>0 steps \<noteq> None"
    by (intro receive_loop_returns) blast
  then obtain x \<sigma>' where fin: "receive_loop start_time max_wait ?\<sigma>0 steps = Some (x, \<sigma>')"
    by (cases "receive_loop start_time max_wait ?\<sigma>0 steps") auto
  from a have "\<forall>s\<in>set steps. \<forall>data addr. recvfrom s = Inr (data, addr) \<longrightarrow>
        map_of (parse_headers data) ''LOCATION'' = None" by blast
  from receive_loop_no_location [OF this fin]
  have e: "responses \<sigma>' = []" "get_calls \<sigma>' = []" by simp_all
  with fin have "receive_ssdp_responses sk max_wait verbose start_time steps =
              Some ([], sk\<lparr>sock_closed := True\<rparr>, \<sigma>')"
    by (cases x) (simp_all add: receive_ssdp_responses_def return_and_close_def)
  with e show "\<exists>\<sigma>'. receive_ssdp_responses sk max_wait verbose start_time steps =
              Some ([], sk\<lparr>sock_closed := True\<rparr>, \<sigma>') \<and>
            responses \<sigma>' = [] \<and> get_calls \<sigma>' = []" by blast
qed

text \<open>
  C7, witness: a reply without a LOCATION header, then a receive timeout: nothing is
  fetched and the list returned is empty.
\<close>

theorem no_location_no_record_witness:
  "receive_ssdp_responses open_sock 2 False 0 [reply_no_location, recv_times_out] =
     Some ([], \<lparr>sock_timeout = 5, sock_closed = True\<rparr>,
           \<lparr>responses = [], recv_calls = 2, get_calls = []\<rparr>)"
proof -
  have 1: "clock reply_no_location - 0 < real_of_int 2" by (simp add: reply_no_location_def)
  have 2: "recvfrom reply_no_location = Inr (notify_no_location, (''10.0.0.7'', 1900))"
    by (simp add: reply_no_location_def)
  have 3: "map_of (parse_headers notify_no_location) ''LOCATION'' = None"
    by (simp add: parse_notify_no_location)
  have 4: "\<forall>s\<in>set [reply_no_location, recv_times_out]. \<forall>data addr.
      recvfrom s = Inr (data, addr) \<longrightarrow> map_of (parse_headers data) ''LOCATION'' = None"
    by (simp add: reply_no_location_def recv_times_out_def parse_notify_no_location)
  have 5: "\<exists>s\<in>set [reply_no_location, recv_times_out].
      \<not> clock s - 0 < real_of_int 2 \<or> (\<exists>e. recvfrom s = Inl e)"
    by (simp add: recv_times_out_def)
  from no_location_no_record [of reply_no_location 0 2 notify_no_location "(''10.0.0.7'', 1900)"
      new_session "[recv_times_out]" "[reply_no_location, recv_times_out]" open_sock False]
    1 2 3 4 5
  show ?thesis
    by (simp add: receive_ssdp_responses_def return_and_close_def new_session_def open_sock_def
        recv_times_out_def loop_body_def del: receive_loop.simps)
       (simp add: recv_times_out_def loop_body_def)
qed


section \<open>The records returned\<close>

lemma fetch_description_cases:
  "fetch_description g = Inr descr \<Longrightarrow>
     descr = ''Unavailable'' \<or> (\<exists>status. g = Inr (status, descr))"
  by (auto simp: fetch_description_def split: sum.splits if_splits)

lemma loop_body_new_responses:
  assumes "loop_body \<sigma> s = (x, \<sigma>')" and "r \<in> set (responses \<sigma>')"
  shows "r \<in> set (responses \<sigma>) \<or>
         (\<exists>data addr loc descr. recvfrom s = Inr (data, addr) \<and>
            map_of (parse_headers data) ''LOCATION'' = Some loc \<and>
            fetch_description (http_get s) = Inr descr \<and>
            r = \<lparr>ip_address = fst addr, port = snd addr, headers = parse_headers data,
                  device_description = descr, location = loc\<rparr>)"
proof (cases "recvfrom s")
  case (Inl e)
  with assms show ?thesis by (auto simp: loop_body_recv_raises)
next
  case (Inr d)
  obtain data addr where d: "recvfrom s = Inr (data, addr)" using Inr by (cases d) simp
  show ?thesis
  proof (cases "map_of (parse_headers data) ''LOCATION''")
    case None
    with d assms show ?thesis by (auto simp: loop_body_no_location)
  next
    case (Some loc)
    with d assms show ?thesis
      by (cases "fetch_description (http_get s)") (auto simp: loop_body_location)
  qed
qed

lemma receive_loop_new_responses:
  assumes "receive_loop start_time max_wait \<sigma> steps = Some (x, \<sigma>')" and "r \<in> set (responses \<sigma>')"
  shows "r \<in> set (responses \<sigma>) \<or>
         (\<exists>s\<in>set steps. \<exists>data addr loc descr. recvfrom s = Inr (data, addr) \<and>
            map_of (parse_headers data) ''LOCATION'' = Some loc \<and>
            fetch_description (http_get s) = Inr descr \<and>
            r = \<lparr>ip_address = fst addr, port = snd addr, headers = parse_headers data,
                  device_description = descr, location = loc\<rparr>)"
  using assms
proof (induction steps arbitrary: \<sigma>)
  case Nil
  then show ?case by simp
next
  case (Cons s steps)
  show ?case
  proof (cases "clock s - start_time < real_of_int max_wait")
    case False
    with Cons.prems show ?thesis by simp
  next
    case True
    obtain y \<sigma>1 where b: "loop_body \<sigma> s = (y, \<sigma>1)" by (cases "loop_body \<sigma> s")
    show ?thesis
    proof (cases y)
      case None
      with True b Cons.prems(1) have "receive_loop start_time max_wait \<sigma>1 steps = Some (x, \<sigma>')"
        by simp
      from Cons.IH [OF this Cons.prems(2)] loop_body_new_responses [OF b, of r]
      show ?thesis by auto
    next
      case (Some e)
      with True b Cons.prems(1) have "\<sigma>' = \<sigma>1" by (simp split: if_splits)
      with loop_body_new_responses [OF b, of r] Cons.prems(2) show ?thesis by auto
    qed
  qed
qed

text \<open>
  C10. Every record of the list returned comes from a datagram of the session: its
  \<^verbatim>\<open>headers\<close> are the parsed headers of that datagram and have the key LOCATION, its
  \<^verbatim>\<open>location\<close> is the value under that key, and its \<^verbatim>\<open>device_description\<close> is either the
  text of an HTTP response of the session or the string \<^verbatim>\<open>"Unavailable"\<close>.
\<close>

theorem returned_records_well_formed:
  assumes "receive_ssdp_responses sk max_wait verbose start_time steps = Some (found, sk', \<sigma>')"
    and "r \<in> set found"
  shows "map_of (headers r) ''LOCATION'' = Some (location r) \<and>
         (device_description r = ''Unavailable'' \<or>
          (\<exists>s\<in>set steps. \<exists>status. http_get s = Inr (status, device_description r))) \<and>
         (\<exists>s\<in>set steps. \<exists>data addr. recvfrom s = Inr (data, addr) \<and>
            headers r = parse_headers data \<and> ip_address r = fst addr \<and> port r = snd addr)"
proof -
  let ?\<sigma>0 = "\<lparr>responses = [], recv_calls = 0, get_calls = []\<rparr>"
  from assms obtain x \<sigma>1 where fin: "receive_loop start_time max_wait ?\<sigma>0 steps = Some (x, \<sigma>1)"
    and r: "r \<in> set (responses \<sigma>1)"
    by (auto simp: receive_ssdp_responses_def return_and_close_def split: option.splits)
  from receive_loop_new_responses [OF fin r]
  obtain s data addr loc descr where s: "s \<in> set steps" "recvfrom s = Inr (data, addr)"
    "map_of (parse_headers data) ''LOCATION'' = Some loc"
    "fetch_description (http_get s) = Inr descr"
    "r = \<lparr>ip_address = fst addr, port = snd addr, headers = parse_headers data,
                  device_description = descr, location = loc\<rparr>"
    by auto
  from fetch_description_cases [OF s(4)] s show ?thesis by auto
qed

text \<open>
  C10, witness: the record returned for a reply whose descriptor was fetched has the key
  LOCATION in its headers, with its \<^verbatim>\<open>location\<close> as the value.
\<close>

theorem returned_records_well_formed_witness:
  "map_of [(''LOCATION'', ''http://10.0.0.5/d.xml'')] ''LOCATION'' = Some ''http://10.0.0.5/d.xml''"
proof -
  let ?r = "\<lparr>ip_address = ''10.0.0.5'', port = 1900,
              headers = [(''LOCATION'', ''http://10.0.0.5/d.xml'')],
              device_description = ''<root/>'', location = ''http://10.0.0.5/d.xml''\<rparr>"
  have run: "receive_ssdp_responses open_sock 2 False 0 [reply_ok, recv_times_out] =
      Some ([?r], \<lparr>sock_timeout = 5, sock_closed = True\<rparr>,
            \<lparr>responses = [?r], recv_calls = 2, get_calls = [''http://10.0.0.5/d.xml'']\<rparr>)"
    by (simp add: receive_ssdp_responses_def return_and_close_def open_sock_def reply_ok_def
        recv_times_out_def loop_body_def parse_device_reply fetch_description_def)
  have mem: "?r \<in> set [?r]" by simp
  from returned_records_well_formed [OF run mem] show ?thesis by simp
qed


section \<open>The MX header\<close>

lemma ssdp_request_lines:
  \<open>take 4 (splitlines (ssdp_request st)) =
     [''M-SEARCH * HTTP/1.1'', ''HOST: 239.255.255.250:1900'', ''MAN: "ssdp:discover"'', ''MX: 2'']\<close>
  by (simp add: ssdp_request_text splitlines_def CRLF_def is_line_boundary_def)

lemma main_wire:
  assumes "main w st mw tmo retries verbose = Some (code, wire, found)"
  shows "\<exists>r. send_ssdp_discovery (network w) st retries tmo = (r, wire) \<or> wire = []"
  using assms
  by (auto simp: main_def split: if_splits prod.splits option.splits)

text \<open>
  C4, as amended. Whatever value the flag \<^verbatim>\<open>-mx\<close> (\<^verbatim>\<open>--max_wait\<close>) is given, every datagram
  that a run of \<^verbatim>\<open>main\<close> sends has the payload \<open>ssdp_request\<close> of the search target, whose
  fourth line is \<^verbatim>\<open>MX: 2\<close>, the constant \<^verbatim>\<open>SSDP_MX\<close>: the flag is the length of the receive
  window and is not given to \<^verbatim>\<open>send_ssdp_discovery\<close>.
\<close>

theorem mx_header_is_constant:
  assumes "main w st mw tmo retries verbose = Some (code, wire, found)"
    and "d \<in> set wire"
  shows \<open>d = (ssdp_request st, (SSDP_ADDR, SSDP_PORT)) \<and>
         take 4 (splitlines (fst d)) =
           [''M-SEARCH * HTTP/1.1'', ''HOST: 239.255.255.250:1900'',
            ''MAN: "ssdp:discover"'', ''MX: 2'']\<close>
proof -
  from main_wire [OF assms(1)] assms(2)
  obtain r where "send_ssdp_discovery (network w) st retries tmo = (r, wire)" by auto
  from send_ssdp_discovery_wire [OF this] assms(2)
  have "d = (ssdp_request st, (SSDP_ADDR, SSDP_PORT))" by auto
  then show ?thesis by (simp add: ssdp_request_lines)
qed

lemma splitlines_ssdp_request_rootdevice:
  \<open>splitlines (ssdp_request ''upnp:rootdevice'') =
     [''M-SEARCH * HTTP/1.1'', ''HOST: 239.255.255.250:1900'', ''MAN: "ssdp:discover"'', ''MX: 2'',
      ''ST: upnp:rootdevice'', '''']\<close>
  by (simp add: ssdp_request_text splitlines_def CRLF_def is_line_boundary_def)

lemma main_quiet_world:
  "main quiet_world ''upnp:rootdevice'' 5 5 3 False =
     Some (0, replicate 3 (ssdp_request ''upnp:rootdevice'', (SSDP_ADDR, SSDP_PORT)), [])"
  by (simp add: main_def quiet_world_def send_ssdp_discovery_def network_up_def upt_conv_Cons
      receive_ssdp_responses_def return_and_close_def recv_times_out_def loop_body_def
      numeral_3_eq_3)

text \<open>
  C4, witness: the datagrams of a run with \<^verbatim>\<open>-mx 5\<close> have the line \<^verbatim>\<open>MX: 2\<close>.
\<close>

theorem mx_header_is_constant_witness:
  \<open>take 4 (splitlines (ssdp_request ''upnp:rootdevice'')) =
           [''M-SEARCH * HTTP/1.1'', ''HOST: 239.255.255.250:1900'',
            ''MAN: "ssdp:discover"'', ''MX: 2'']\<close>
proof -
  have "(ssdp_request ''upnp:rootdevice'', (SSDP_ADDR, SSDP_PORT)) \<in>
      set (replicate 3 (ssdp_request ''upnp:rootdevice'', (SSDP_ADDR, SSDP_PORT)))"
    by simp
  from mx_header_is_constant [OF main_quiet_world this] show ?thesis by simp
qed

text \<open>
  C4, as stated, fails: a run with \<^verbatim>\<open>-mx 5\<close> sends three datagrams, and their payload has
  the line \<^verbatim>\<open>MX: 2\<close> and no line \<^verbatim>\<open>MX: 5\<close>.
\<close>

theorem mx_flag_not_in_payload_counterexample:
  \<open>main quiet_world ''upnp:rootdevice'' 5 5 3 False =
     Some (0, replicate 3 (ssdp_request ''upnp:rootdevice'', (SSDP_ADDR, SSDP_PORT)), []) \<and>
   ''MX: 5'' \<notin> set (splitlines (ssdp_request ''upnp:rootdevice'')) \<and>
   ''MX: 2'' \<in> set (splitlines (ssdp_request ''upnp:rootdevice''))\<close>
  by (simp add: main_quiet_world splitlines_ssdp_request_rootdevice)


section \<open>Parsing the headers\<close>

lemma of_char_upper_char:
  "(of_char (upper_char c) :: nat) =
     (if 97 \<le> (of_char c :: nat) \<and> (of_char c :: nat) \<le> 122 then of_char c - 32 else of_char c)"
  by (auto simp: upper_char_def Let_def)

lemma upper_char_idem: "upper_char (upper_char c) = upper_char c"
proof (cases "97 \<le> (of_char c :: nat) \<and> (of_char c :: nat) \<le> 122")
  case True
  then have "(of_char (upper_char c) :: nat) = of_char c - 32" by (simp add: of_char_upper_char)
  with True have "\<not> (97 \<le> (of_char (upper_char c) :: nat) \<and> (of_char (upper_char c) :: nat) \<le> 122)"
    by linarith
  then show ?thesis by (auto simp: upper_char_def [of "upper_char c"] Let_def)
next
  case False
  then show ?thesis by (auto simp: upper_char_def Let_def)
qed

lemma py_isspace_upper_char: "py_isspace (upper_char c) = py_isspace c"
  unfolding py_isspace_def Let_def of_char_upper_char by auto

lemma is_line_boundary_upper_char: "is_line_boundary (upper_char c) = is_line_boundary c"
  unfolding is_line_boundary_def Let_def of_char_upper_char by auto

lemma upper_char_eq_colon: "upper_char c = CHR '':'' \<longleftrightarrow> c = CHR '':''"
proof
  assume "upper_char c = CHR '':''"
  then have "(of_char (upper_char c) :: nat) = 58" by simp
  then have "(of_char c :: nat) = 58" by (simp add: of_char_upper_char split: if_splits)
  then have "char_of (of_char c :: nat) = char_of (58 :: nat)" by simp
  then show "c = CHR '':''" by (simp add: char_of_eq_iff)
next
  assume "c = CHR '':''"
  then show "upper_char c = CHR '':''" by (simp add: upper_char_def)
qed

lemma upper_idem: "upper (upper s) = upper s"
  by (simp add: upper_def upper_char_idem)

lemma colon_in_upper: "CHR '':'' \<in> set (upper s) \<longleftrightarrow> CHR '':'' \<in> set s"
proof
  assume "CHR '':'' \<in> set (upper s)"
  then obtain c where "c \<in> set s" "upper_char c = CHR '':''" by (auto simp: upper_def)
  then show "CHR '':'' \<in> set s" by (simp add: upper_char_eq_colon)
next
  assume "CHR '':'' \<in> set s"
  then have "upper_char (CHR '':'') \<in> set (upper s)" by (simp add: upper_def)
  moreover have "upper_char (CHR '':'') = CHR '':''" by (simp add: upper_char_eq_colon)
  ultimately show "CHR '':'' \<in> set (upper s)" by simp
qed

lemma strip_upper: "strip (upper s) = upper (strip s)"
proof -
  have c: "py_isspace \<circ> upper_char = py_isspace" by (auto simp: py_isspace_upper_char)
  show ?thesis
    by (simp add: strip_def upper_def dropWhile_map rev_map c)
qed

lemma dropWhile_fixed: "xs = [] \<or> \<not> P (hd xs) \<Longrightarrow> dropWhile P xs = xs"
  by (cases xs) auto

lemma last_dropWhile: "dropWhile P xs \<noteq> [] \<Longrightarrow> last (dropWhile P xs) = last xs"
  by (induction xs) (auto split: if_splits)

lemma strip_idem: "strip (strip s) = strip s"
proof -
  let ?a = "dropWhile py_isspace s"
  let ?b = "dropWhile py_isspace (rev ?a)"
  have b: "dropWhile py_isspace ?b = ?b" by (simp add: dropWhile_idem)
  have "dropWhile py_isspace (rev ?b) = rev ?b"
  proof (cases "?b = []")
    case True
    show ?thesis by (simp only: True rev.simps(1) dropWhile.simps(1))
  next
    case False
    have a: "?a \<noteq> []"
    proof
      assume "?a = []"
      then have "?b = []" by (simp only: rev.simps(1) dropWhile.simps(1))
      with False show False by (rule notE)
    qed
    from False have "hd (rev ?b) = last ?b" by (simp add: hd_rev)
    also from False have "\<dots> = last (rev ?a)" by (rule last_dropWhile)
    also from a have "\<dots> = hd ?a" by (simp add: last_rev)
    finally have "hd (rev ?b) = hd ?a" .
    moreover from a have "\<not> py_isspace (hd ?a)" by (rule hd_dropWhile)
    ultimately have "\<not> py_isspace (hd (rev ?b))" by simp
    then show ?thesis by (rule dropWhile_fixed [OF disjI2])
  qed
  then show ?thesis by (simp add: strip_def b)
qed

lemma set_strip: "set (strip s) \<subseteq> set s"
proof -
  have "set (strip s) = set (dropWhile py_isspace (rev (dropWhile py_isspace s)))"
    by (simp add: strip_def)
  also have "\<dots> \<subseteq> set (rev (dropWhile py_isspace s))" by (auto dest: set_dropWhileD)
  also have "\<dots> \<subseteq> set s" by (auto dest: set_dropWhileD)
  finally show ?thesis .
qed

lemma split_colon_append:
  "CHR '':'' \<notin> set k \<Longrightarrow> split_colon (k @ CHR '':'' # v) = (k, v)"
  by (induction k) (auto simp: split_colon_def)

lemma split_colon_key: "CHR '':'' \<notin> set (fst (split_colon line))"
  by (auto simp: split_colon_def dest: set_takeWhileD)

lemma parse_line_rendered:
  assumes "CHR '':'' \<in> set line"
  shows "parse_line hs (upper (strip (fst (split_colon line))) @ '':'' @ strip (snd (split_colon line)))
           = parse_line hs line"
proof -
  let ?k = "upper (strip (fst (split_colon line)))"
  let ?v = "strip (snd (split_colon line))"
  have "CHR '':'' \<notin> set (strip (fst (split_colon line)))"
    using split_colon_key [of line] set_strip [of "fst (split_colon line)"] by blast
  then have nk: "CHR '':'' \<notin> set ?k" by (simp add: colon_in_upper)
  have "parse_line hs (?k @ '':'' @ ?v) = AList.update (upper (strip ?k)) (strip ?v) hs"
    by (simp add: parse_line_def split_colon_append [OF nk])
  also have "upper (strip ?k) = ?k"
    by (simp add: strip_upper [symmetric] upper_idem) (simp add: strip_upper strip_idem)
  also have "strip ?v = ?v" by (rule strip_idem)
  also have "AList.update ?k ?v hs = parse_line hs line"
    using assms by (simp add: parse_line_def split: prod.splits)
  finally show ?thesis .
qed

lemma parse_line_case_insensitive:
  assumes "upper key1 = upper key2" and "CHR '':'' \<notin> set key1"
  shows "parse_line hs (key1 @ '':'' @ val) = parse_line hs (key2 @ '':'' @ val)"
proof -
  from assms have n2: "CHR '':'' \<notin> set key2" by (metis colon_in_upper)
  have "upper (strip key1) = upper (strip key2)"
    using assms(1) by (simp add: strip_upper [symmetric])
  then show ?thesis
    by (simp add: parse_line_def split_colon_append [OF assms(2)] split_colon_append [OF n2])
qed

lemma parse_line_lookup:
  "map_of (parse_line hs line) k =
     (if CHR '':'' \<in> set line \<and> upper (strip (fst (split_colon line))) = k
      then Some (strip (snd (split_colon line))) else map_of hs k)"
  by (simp add: parse_line_def update_conv' split: prod.splits)

lemma foldl_parse_line_lookup:
  "map_of (foldl parse_line hs ls) k =
     (if filter (\<lambda>l. CHR '':'' \<in> set l \<and> upper (strip (fst (split_colon l))) = k) ls = []
      then map_of hs k
      else Some (strip (snd (split_colon (last
        (filter (\<lambda>l. CHR '':'' \<in> set l \<and> upper (strip (fst (split_colon l))) = k) ls))))))"
proof (induction ls rule: rev_induct)
  case Nil
  then show ?case by simp
next
  case (snoc l ls)
  show ?case
  proof (cases "CHR '':'' \<in> set l \<and> upper (strip (fst (split_colon l))) = k")
    case True
    then show ?thesis by (simp add: parse_line_lookup)
  next
    case False
    then have "map_of (foldl parse_line hs (ls @ [l])) k = map_of (foldl parse_line hs ls) k"
      by (auto simp: parse_line_lookup)
    with False snoc.IH show ?thesis by auto
  qed
qed

text \<open>
  C5. Parsing a header line again from its parsed form changes nothing: if a line with a
  colon parses to the entry \<open>(k, v)\<close>, the line \<open>k:v\<close> parses to the same entry and has
  the same effect on any dictionary. Keys are compared without case: two lines whose keys
  differ only in the case of their letters have the same effect. In particular
  \<^verbatim>\<open>"Location: http://x\r\n"\<close> and \<^verbatim>\<open>"LOCATION:http://x"\<close> both parse to the dictionary with the
  one key LOCATION and the value \<^verbatim>\<open>http://x\<close>.
\<close>

theorem header_parsing_idempotent:
  \<open>(CHR '':'' \<in> set line \<and> parse_line [] line = [(k, v)] \<longrightarrow>
      parse_line [] (k @ '':'' @ v) = [(k, v)] \<and>
      parse_line hs (k @ '':'' @ v) = parse_line hs line) \<and>
    (upper key1 = upper key2 \<and> CHR '':'' \<notin> set key1 \<longrightarrow>
      parse_line hs (key1 @ '':'' @ val) = parse_line hs (key2 @ '':'' @ val)) \<and>
    parse_headers (''Location: http://x'' @ CRLF) = [(''LOCATION'', ''http://x'')] \<and>
    parse_headers ''LOCATION:http://x'' = [(''LOCATION'', ''http://x'')]\<close>
proof (intro conjI impI)
  assume a: "CHR '':'' \<in> set line \<and> parse_line [] line = [(k, v)]"
  then have "parse_line [] line =
      [(upper (strip (fst (split_colon line))), strip (snd (split_colon line)))]"
    by (simp add: parse_line_def split: prod.splits)
  with a have kv: "k = upper (strip (fst (split_colon line)))" "v = strip (snd (split_colon line))"
    by simp_all
  from a have c: "CHR '':'' \<in> set line" by simp
  from parse_line_rendered [OF c, of hs] kv
  show "parse_line hs (k @ '':'' @ v) = parse_line hs line" by simp
  from parse_line_rendered [OF c, of "[]"] kv a
  show "parse_line [] (k @ '':'' @ v) = [(k, v)]" by simp
next
  assume "upper key1 = upper key2 \<and> CHR '':'' \<notin> set key1"
  then show "parse_line hs (key1 @ '':'' @ val) = parse_line hs (key2 @ '':'' @ val)"
    using parse_line_case_insensitive [of key1 key2 hs val] by simp
next
  show "parse_headers (''Location: http://x'' @ CRLF) = [(''LOCATION'', ''http://x'')]"
    by (simp add: text_eval)
next
  show "parse_headers ''LOCATION:http://x'' = [(''LOCATION'', ''http://x'')]"
    by (simp add: text_eval)
qed

text \<open>
  C5, witness: the line \<^verbatim>\<open>Location: http://x\<close> and its parsed form, and the keys
  \<^verbatim>\<open>location\<close> and \<^verbatim>\<open>Location\<close>.
\<close>

theorem header_parsing_idempotent_witness:
  "parse_line [] ''LOCATION:http://x'' = [(''LOCATION'', ''http://x'')] \<and>
   parse_line [] ''location:http://x'' = parse_line [] ''Location:http://x''"
proof -
  have p: "parse_line [] ''Location: http://x'' = [(''LOCATION'', ''http://x'')]"
    by (simp add: text_eval)
  have c: "CHR '':'' \<in> set ''Location: http://x''" by simp
  have u: "upper ''location'' = upper ''Location''"
    by (simp add: upper_def upper_char_def char_of_eq_iff)
  have n: "CHR '':'' \<notin> set ''location''" by simp
  from header_parsing_idempotent [of "''Location: http://x''" "''LOCATION''" "''http://x''" "[]"
      "''location''" "''Location''" "''http://x''"] p c u n
  show ?thesis by simp
qed

text \<open>
  C6. When one or more lines of a datagram have a colon and a key that normalises (strip,
  then upper) to the same name, the parsed headers map that name to the stripped value of
  the last of these lines.
\<close>

theorem last_duplicate_wins:
  assumes "dups = filter (\<lambda>l. CHR '':'' \<in> set l \<and> upper (strip (fst (split_colon l))) = name)
                    (splitlines data)"
    and "dups \<noteq> []"
  shows "map_of (parse_headers data) name = Some (strip (snd (split_colon (last dups))))"
  using assms foldl_parse_line_lookup [of "[]" "splitlines data" name]
  by (simp add: parse_headers_def)

lemma splitlines_reply_two_st: "splitlines reply_two_st = [''st: a'', ''Usn: u'', ''ST : b:c'']"
  by (simp add: reply_two_st_def splitlines_def CRLF_def is_line_boundary_def)

text \<open>
  C6, witness: of the lines \<^verbatim>\<open>st: a\<close> and \<^verbatim>\<open>ST : b:c\<close> the second gives the value of ST.
\<close>

theorem last_duplicate_wins_witness:
  "map_of (parse_headers reply_two_st) ''ST'' = Some ''b:c''"
proof -
  have f: "[''st: a'', ''ST : b:c''] =
      filter (\<lambda>l. CHR '':'' \<in> set l \<and> upper (strip (fst (split_colon l))) = ''ST'')
        (splitlines reply_two_st)"
    by (simp add: splitlines_reply_two_st split_colon_def upper_def strip_def py_isspace_def
        upper_char_def char_of_eq_iff)
  have n: "[''st: a'', ''ST : b:c''] \<noteq> []" by simp
  from last_duplicate_wins [OF f n] show ?thesis
    by (simp add: split_colon_def strip_def py_isspace_def)
qed

end
